theory Spec2Isabelle
  imports Complex_Main
begin

section \<open>API key store and sliding-window rate limiter (auth.py)\<close>

text \<open>
  The module keeps three process-wide dictionaries: \<open>API_KEYS\<close> (issued keys),
  \<open>DEMO_KEYS\<close> (two keys written as a literal at import) and \<open>REQUEST_COUNTS\<close>
  (per key, the list of admission instants). They are the fields of one state record
  that every function takes and, when it writes, returns.

  What the source reads from its environment is an argument of the model:
  \<^item> \<open>secrets.token_urlsafe(32)\<close> is the argument \<open>token\<close>;
  \<^item> \<open>datetime.utcnow().isoformat()\<close> is the argument \<open>utcnow\<close> (a string);
  \<^item> \<open>time.time()\<close> is the argument \<open>now\<close>. It is a real number here and
    \<open>now - 60\<close> is exact; the rounding of the float subtraction is not modelled.
\<close>

subsection \<open>Values and dictionaries\<close>

datatype pyval = PStr string | PInt int | PNone

text \<open>A key's metadata is a small dict with literal field names, in insertion order.\<close>

type_synonym pydict = "(string \<times> pyval) list"

datatype error = HTTPException int string

record state =
  API_KEYS :: "string \<rightharpoonup> pydict"
  DEMO_KEYS :: "string \<rightharpoonup> pydict"
  REQUEST_COUNTS :: "string \<rightharpoonup> real list"

subsection \<open>Module import: the initial state\<close>

definition demo_free_key :: string where
  "demo_free_key = ''demo-free-key-2026''"

definition demo_pro_key :: string where
  "demo_pro_key = ''demo-pro-key-2026''"

definition demo_free_info :: "string \<Rightarrow> pydict" where
  "demo_free_info utcnow =
     [(''name'', PStr ''Demo Free User''), (''tier'', PStr ''free''),
      (''rate_limit'', PInt 10), (''created'', PStr utcnow)]"

definition demo_pro_info :: "string \<Rightarrow> pydict" where
  "demo_pro_info utcnow =
     [(''name'', PStr ''Demo Pro User''), (''tier'', PStr ''pro''),
      (''rate_limit'', PInt 100), (''created'', PStr utcnow)]"

text \<open>The two \<open>created\<close> fields are two separate readings of the clock.\<close>

definition init_state :: "string \<Rightarrow> string \<Rightarrow> state" where
  "init_state utcnow1 utcnow2 =
     \<lparr>API_KEYS = Map.empty,
      DEMO_KEYS = [demo_free_key \<mapsto> demo_free_info utcnow1,
                   demo_pro_key \<mapsto> demo_pro_info utcnow2],
      REQUEST_COUNTS = Map.empty\<rparr>"

subsection \<open>Key issuance and lookup\<close>

definition generate_api_key :: "string \<Rightarrow> string" where
  "generate_api_key token = ''ngcm_'' @ token"

definition rate_limits :: "(string \<times> int) list" where
  "rate_limits = [(''free'', 10), (''starter'', 60), (''pro'', 300), (''enterprise'', 1000)]"

text \<open>\<open>rate_limits.get(tier, 10)\<close>\<close>

definition rate_limits_get :: "string \<Rightarrow> int" where
  "rate_limits_get tier = (case map_of rate_limits tier of Some n \<Rightarrow> n | None \<Rightarrow> 10)"

definition key_data :: "string \<Rightarrow> string \<Rightarrow> string \<Rightarrow> pydict" where
  "key_data name tier utcnow =
     [(''name'', PStr name), (''tier'', PStr tier),
      (''rate_limit'', PInt (rate_limits_get tier)), (''created'', PStr utcnow),
      (''requests_today'', PInt 0), (''last_request'', PNone)]"

text \<open>
  \<open>create_api_key(name, tier)\<close>: stores \<open>key_data\<close> under the new key (overwriting any
  entry the key already had) and returns the dict \<open>{"api_key": key, **key_data}\<close>.
\<close>

definition create_api_key ::
  "string \<Rightarrow> string \<Rightarrow> string \<Rightarrow> string \<Rightarrow> state \<Rightarrow> pydict \<times> state" where
  "create_api_key name tier token utcnow s =
     (let key = generate_api_key token;
          kd = key_data name tier utcnow
      in ((''api_key'', PStr key) # kd, s\<lparr>API_KEYS := (API_KEYS s)(key \<mapsto> kd)\<rparr>))"

definition get_key_info :: "state \<Rightarrow> string \<Rightarrow> pydict option" where
  "get_key_info s api_key =
     (case DEMO_KEYS s api_key of
        Some d \<Rightarrow> Some d
      | None \<Rightarrow> (case API_KEYS s api_key of Some d \<Rightarrow> Some d | None \<Rightarrow> None))"

subsection \<open>The two authentication dependencies\<close>

text \<open>
  The header value is \<open>None\<close> when the request has no \<open>X-API-Key\<close> header
  (\<open>auto_error=False\<close>). \<open>not api_key\<close> holds for \<open>None\<close> and for the empty string;
  \<open>not key_info\<close> holds for \<open>None\<close> and for an empty dict.
\<close>

definition MissingKey :: error where
  "MissingKey = HTTPException 401
     ''API key required. Get a free key at /api/register or use demo key: demo-free-key-2026''"

definition InvalidKey_optional :: error where
  "InvalidKey_optional = HTTPException 401 ''Invalid API key. Get a free key at /api/register''"

definition InvalidKey :: error where
  "InvalidKey = HTTPException 401 ''Invalid API key''"

definition verify_api_key :: "state \<Rightarrow> string option \<Rightarrow> error + pydict option" where
  "verify_api_key s api_key =
     (case api_key of
        None \<Rightarrow> Inr None
      | Some k \<Rightarrow>
          if k = [] then Inr None
          else (case get_key_info s k of
                  None \<Rightarrow> Inl InvalidKey_optional
                | Some d \<Rightarrow> if d = [] then Inl InvalidKey_optional else Inr (Some d)))"

definition require_api_key :: "state \<Rightarrow> string option \<Rightarrow> error + pydict" where
  "require_api_key s api_key =
     (case api_key of
        None \<Rightarrow> Inl MissingKey
      | Some k \<Rightarrow>
          if k = [] then Inl MissingKey
          else (case get_key_info s k of
                  None \<Rightarrow> Inl InvalidKey
                | Some d \<Rightarrow> if d = [] then Inl InvalidKey else Inr d))"

subsection \<open>The rate limiter\<close>

text \<open>The list stored for a key; a key never seen has none, which reads as empty.\<close>

definition window :: "state \<Rightarrow> string \<Rightarrow> real list" where
  "window s api_key = (case REQUEST_COUNTS s api_key of None \<Rightarrow> [] | Some ts \<Rightarrow> ts)"

definition check_rate_limit :: "string \<Rightarrow> int \<Rightarrow> real \<Rightarrow> state \<Rightarrow> bool \<times> state" where
  "check_rate_limit api_key limit now s =
     (let minute_ago = now - 60;
          rc0 = (case REQUEST_COUNTS s api_key of
                   None \<Rightarrow> (REQUEST_COUNTS s)(api_key \<mapsto> [])
                 | Some _ \<Rightarrow> REQUEST_COUNTS s);
          kept = filter (\<lambda>t. t > minute_ago) (case rc0 api_key of None \<Rightarrow> [] | Some ts \<Rightarrow> ts);
          rc1 = rc0(api_key \<mapsto> kept)
      in if int (length kept) \<ge> limit
         then (False, s\<lparr>REQUEST_COUNTS := rc1\<rparr>)
         else (True, s\<lparr>REQUEST_COUNTS := rc1(api_key \<mapsto> kept @ [now])\<rparr>))"

subsection \<open>Sequences of operations\<close>

datatype operation =
    Create_api_key string string string string
  | Get_key_info string
  | Verify_api_key "string option"
  | Require_api_key "string option"
  | Check_rate_limit string int real

fun exec :: "operation \<Rightarrow> state \<Rightarrow> state" where
  "exec (Create_api_key name tier token utcnow) s = snd (create_api_key name tier token utcnow s)"
| "exec (Get_key_info api_key) s = s"
| "exec (Verify_api_key api_key) s = s"
| "exec (Require_api_key api_key) s = s"
| "exec (Check_rate_limit api_key limit now) s = snd (check_rate_limit api_key limit now s)"

fun run_ops :: "state \<Rightarrow> operation list \<Rightarrow> state" where
  "run_ops s [] = s"
| "run_ops s (x # xs) = run_ops (exec x s) xs"

text \<open>The clock readings of a sequence of operations, in call order.\<close>

fun clock_readings :: "operation list \<Rightarrow> real list" where
  "clock_readings [] = []"
| "clock_readings (Check_rate_limit api_key limit now # xs) = now # clock_readings xs"
| "clock_readings (x # xs) = clock_readings xs"

text \<open>
  The instants at which \<open>check_rate_limit\<close> returned \<open>True\<close> for key \<open>k\<close> while the
  operations ran from state \<open>s\<close>, in call order.
\<close>

fun granted :: "string \<Rightarrow> state \<Rightarrow> operation list \<Rightarrow> real list" where
  "granted k s [] = []"
| "granted k s (Check_rate_limit api_key limit now # xs) =
     (if api_key = k \<and> fst (check_rate_limit api_key limit now s) then [now] else [])
     @ granted k (snd (check_rate_limit api_key limit now s)) xs"
| "granted k s (x # xs) = granted k (exec x s) xs"

text \<open>Every check of key \<open>k\<close> is made against the limit \<open>L\<close>.\<close>

fun limit_is :: "string \<Rightarrow> int \<Rightarrow> operation \<Rightarrow> bool" where
  "limit_is k L (Check_rate_limit api_key limit now) = (api_key = k \<longrightarrow> limit = L)"
| "limit_is k L x = True"

text \<open>The tokens drawn by the issuance calls of a sequence of operations.\<close>

fun tokens_of :: "operation list \<Rightarrow> string list" where
  "tokens_of [] = []"
| "tokens_of (Create_api_key name tier token utcnow # xs) = token # tokens_of xs"
| "tokens_of (x # xs) = tokens_of xs"

subsection \<open>The specification's reading of the admission step\<close>

text \<open>
  The specification words the eviction as: evict every timestamp \<open>< t - 60\<close>, deny
  without recording when the count that remains is \<open>\<ge> limit\<close>, otherwise append \<open>t\<close>
  and admit. \<open>admit_spec\<close> follows these words and nothing else; it is compared with
  \<open>check_rate_limit\<close> below.
\<close>

definition admit_spec :: "string \<Rightarrow> int \<Rightarrow> real \<Rightarrow> state \<Rightarrow> bool \<times> state" where
  "admit_spec key_id limit t s =
     (let remaining = filter (\<lambda>x. \<not> x < t - 60) (window s key_id)
      in if int (length remaining) \<ge> limit
         then (False, s\<lparr>REQUEST_COUNTS := (REQUEST_COUNTS s)(key_id \<mapsto> remaining)\<rparr>)
         else (True, s\<lparr>REQUEST_COUNTS := (REQUEST_COUNTS s)(key_id \<mapsto> remaining @ [t])\<rparr>))"

section \<open>Basic facts\<close>

subsection \<open>Sequences of operations\<close>

lemma run_ops_append: "run_ops s (xs @ ys) = run_ops (run_ops s xs) ys"
  by (induction xs arbitrary: s) simp_all

lemma granted_append: "granted k s (xs @ ys) = granted k s xs @ granted k (run_ops s xs) ys"
  by (induction k s xs rule: granted.induct) simp_all

lemma clock_readings_append: "clock_readings (xs @ ys) = clock_readings xs @ clock_readings ys"
  by (induction xs rule: clock_readings.induct) simp_all

subsection \<open>What one rate-limit check does\<close>

lemma check_rate_limit_fst:
  "fst (check_rate_limit k L now s) =
     (int (length (filter (\<lambda>x. now - 60 < x) (window s k))) < L)"
  by (auto simp: check_rate_limit_def window_def Let_def split: option.splits)

lemma check_rate_limit_window:
  "window (snd (check_rate_limit k L now s)) k' =
     (if k' = k
      then filter (\<lambda>x. now - 60 < x) (window s k) @
           (if int (length (filter (\<lambda>x. now - 60 < x) (window s k))) < L then [now] else [])
      else window s k')"
  by (auto simp: check_rate_limit_def window_def Let_def split: option.splits)

lemma check_rate_limit_API_KEYS: "API_KEYS (snd (check_rate_limit k L now s)) = API_KEYS s"
  by (auto simp: check_rate_limit_def Let_def split: option.splits)

lemma check_rate_limit_DEMO_KEYS: "DEMO_KEYS (snd (check_rate_limit k L now s)) = DEMO_KEYS s"
  by (auto simp: check_rate_limit_def Let_def split: option.splits)

lemma window_create_api_key:
  "window (snd (create_api_key name tier token utcnow s)) k = window s k"
  by (simp add: create_api_key_def window_def Let_def)

lemma window_init_state: "window (init_state c1 c2) k = []"
  by (simp add: window_def init_state_def)

subsection \<open>The stored window is the recent part of the granted instants\<close>

lemma filter_filter_less:
  fixes c d :: real
  assumes "d \<le> c"
  shows "filter (\<lambda>x. c < x) (filter (\<lambda>x. d < x) xs) = filter (\<lambda>x. c < x) xs"
  using assms by (induction xs) auto

lemma length_filter_mono:
  "(\<And>x. x \<in> set xs \<Longrightarrow> P x \<Longrightarrow> Q x) \<Longrightarrow> length (filter P xs) \<le> length (filter Q xs)"
  by (induction xs) auto

text \<open>
  With a clock that never goes back, every cutoff \<open>c\<close> that is at least as late as the
  cutoffs already applied sees the same list in the stored window as in the whole
  history of granted instants.
\<close>

lemma window_is_recent_granted:
  "sorted (clock_readings xs) \<Longrightarrow> \<forall>t\<in>set (clock_readings xs). t - 60 \<le> c \<Longrightarrow>
   filter (\<lambda>x. c < x) (window (run_ops (init_state c1 c2) xs) k) =
   filter (\<lambda>x. c < x) (granted k (init_state c1 c2) xs)"
proof (induction xs arbitrary: c rule: rev_induct)
  case Nil
  show ?case by (simp add: window_init_state)
next
  case (snoc x xs)
  let ?s = "run_ops (init_state c1 c2) xs"
  from snoc.prems have srt: "sorted (clock_readings xs)"
    by (simp add: clock_readings_append sorted_append)
  from snoc.prems have old: "\<forall>t\<in>set (clock_readings xs). t - 60 \<le> c"
    by (simp add: clock_readings_append)
  note IH = snoc.IH [OF srt]
  show ?case
  proof (cases x)
    case (Check_rate_limit api_key limit now)
    from snoc.prems Check_rate_limit have c: "now - 60 \<le> c"
      by (simp add: clock_readings_append)
    show ?thesis
    proof (cases "api_key = k")
      case True
      have "filter (\<lambda>x. c < x) (filter (\<lambda>x. now - 60 < x) (window ?s k)) =
            filter (\<lambda>x. c < x) (granted k (init_state c1 c2) xs)"
        using IH [OF old] by (simp only: filter_filter_less [OF c])
      with True Check_rate_limit show ?thesis
        by (simp add: run_ops_append granted_append check_rate_limit_window check_rate_limit_fst)
    next
      case False
      with Check_rate_limit IH [OF old] show ?thesis
        by (simp add: run_ops_append granted_append check_rate_limit_window)
    qed
  qed (insert IH [OF old], simp_all add: run_ops_append granted_append window_create_api_key)
qed

text \<open>
  Among the granted instants, any set of instants that lie less than 60 seconds apart has
  at most \<open>L\<close> members.
\<close>

lemma granted_bound:
  assumes "sorted (clock_readings xs)" and "list_all (limit_is k L) xs"
    and W: "\<And>x y. W x \<Longrightarrow> W y \<Longrightarrow> y - x < 60"
  shows "int (length (filter W (granted k (init_state c1 c2) xs))) \<le> max 0 L"
  using assms(1,2)
proof (induction xs rule: rev_induct)
  case Nil
  show ?case by simp
next
  case (snoc x xs)
  let ?s = "run_ops (init_state c1 c2) xs"
  let ?G = "granted k (init_state c1 c2) xs"
  from snoc.prems have srt: "sorted (clock_readings xs)"
    by (simp add: clock_readings_append sorted_append)
  from snoc.prems have lim: "list_all (limit_is k L) xs" by simp
  note IH = snoc.IH [OF srt lim]
  show ?case
  proof (cases x)
    case (Check_rate_limit api_key limit now)
    from snoc.prems Check_rate_limit
    have le: "\<forall>t\<in>set (clock_readings xs). t - 60 \<le> now - 60"
      by (simp add: clock_readings_append sorted_append)
    show ?thesis
    proof (cases "api_key = k \<and> fst (check_rate_limit api_key limit now ?s) \<and> W now")
      case True
      with snoc.prems Check_rate_limit have L: "limit = L" by simp
      from True have "int (length (filter (\<lambda>x. now - 60 < x) (window ?s k))) < L"
        by (auto simp: check_rate_limit_fst L)
      then have lt: "int (length (filter (\<lambda>x. now - 60 < x) ?G)) < L"
        by (simp only: window_is_recent_granted [OF srt le])
      have "length (filter W ?G) \<le> length (filter (\<lambda>x. now - 60 < x) ?G)"
      proof (rule length_filter_mono)
        fix x assume "W x"
        with True W [of x now] show "now - 60 < x" by simp
      qed
      with lt have "int (length (filter W ?G)) + 1 \<le> L" by simp
      with True Check_rate_limit show ?thesis
        by (simp add: granted_append)
    next
      case False
      with Check_rate_limit IH show ?thesis
        by (auto simp: granted_append)
    qed
  qed (insert IH, simp_all add: granted_append)
qed

subsection \<open>The key store\<close>

lemma generate_api_key_not_demo:
  "generate_api_key token \<noteq> demo_free_key" "generate_api_key token \<noteq> demo_pro_key"
  by (simp_all add: generate_api_key_def demo_free_key_def demo_pro_key_def)

lemma generate_api_key_nonempty: "generate_api_key token \<noteq> []"
  by (simp add: generate_api_key_def)

lemma generate_api_key_inj: "generate_api_key t = generate_api_key t' \<longleftrightarrow> t = t'"
  by (simp add: generate_api_key_def)

lemma DEMO_KEYS_exec: "DEMO_KEYS (exec x s) = DEMO_KEYS s"
  by (cases x) (simp_all add: create_api_key_def check_rate_limit_DEMO_KEYS Let_def)

lemma DEMO_KEYS_run_ops: "DEMO_KEYS (run_ops s xs) = DEMO_KEYS s"
  by (induction xs arbitrary: s) (simp_all add: DEMO_KEYS_exec)

lemma API_KEYS_run_ops:
  "token \<notin> set (tokens_of xs) \<Longrightarrow>
   API_KEYS (run_ops s xs) (generate_api_key token) = API_KEYS s (generate_api_key token)"
proof (induction xs arbitrary: s)
  case Nil
  show ?case by simp
next
  case (Cons x xs)
  then show ?case
    by (cases x)
       (simp_all add: create_api_key_def Let_def generate_api_key_inj check_rate_limit_API_KEYS)
qed

lemma get_key_info_init_state:
  "get_key_info (init_state c1 c2) k = Some d \<Longrightarrow> d \<noteq> []"
  by (auto simp: get_key_info_def init_state_def demo_free_info_def demo_pro_info_def
      split: if_splits)

lemma API_KEYS_nonempty:
  "API_KEYS (run_ops (init_state c1 c2) xs) k = Some d \<Longrightarrow> d \<noteq> []"
proof (induction xs arbitrary: k d rule: rev_induct)
  case Nil
  then show ?case by (simp add: init_state_def)
next
  case (snoc x xs)
  then show ?case
    by (cases x)
       (auto simp: run_ops_append create_api_key_def Let_def key_data_def
          check_rate_limit_API_KEYS split: if_splits)
qed

lemma get_key_info_nonempty:
  assumes "get_key_info (run_ops (init_state c1 c2) xs) k = Some d"
  shows "d \<noteq> []"
proof (cases "DEMO_KEYS (init_state c1 c2) k")
  case None
  with assms have "API_KEYS (run_ops (init_state c1 c2) xs) k = Some d"
    by (simp add: get_key_info_def DEMO_KEYS_run_ops split: option.splits)
  then show ?thesis by (rule API_KEYS_nonempty)
next
  case (Some e)
  with assms have "d = e" by (simp add: get_key_info_def DEMO_KEYS_run_ops)
  with Some show ?thesis
    by (auto simp: init_state_def demo_free_info_def demo_pro_info_def split: if_splits)
qed

lemma get_key_info_issued:
  assumes "token \<notin> set (tokens_of ys)"
  shows "get_key_info
           (run_ops (snd (create_api_key name tier token utcnow (run_ops (init_state c1 c2) xs))) ys)
           (generate_api_key token) = Some (key_data name tier utcnow)"
proof -
  let ?s1 = "snd (create_api_key name tier token utcnow (run_ops (init_state c1 c2) xs))"
  have "DEMO_KEYS (run_ops ?s1 ys) = DEMO_KEYS (init_state c1 c2)"
    by (simp add: DEMO_KEYS_run_ops create_api_key_def Let_def)
  then have "DEMO_KEYS (run_ops ?s1 ys) (generate_api_key token) = None"
    using generate_api_key_not_demo [of token] by (simp add: init_state_def)
  moreover have "API_KEYS (run_ops ?s1 ys) (generate_api_key token) = Some (key_data name tier utcnow)"
    by (simp add: API_KEYS_run_ops [OF assms] create_api_key_def Let_def)
  ultimately show ?thesis by (simp add: get_key_info_def)
qed

subsection \<open>The stored window is ordered\<close>

lemma window_sorted:
  "sorted (clock_readings xs) \<Longrightarrow>
   sorted (window (run_ops (init_state c1 c2) xs) k) \<and>
   set (window (run_ops (init_state c1 c2) xs) k) \<subseteq> set (clock_readings xs)"
proof (induction xs rule: rev_induct)
  case Nil
  show ?case by (simp add: window_init_state)
next
  case (snoc x xs)
  from snoc.prems have srt: "sorted (clock_readings xs)"
    by (simp add: clock_readings_append sorted_append)
  note IH = snoc.IH [OF srt]
  show ?case
  proof (cases x)
    case (Check_rate_limit api_key limit now)
    from snoc.prems Check_rate_limit have le: "\<forall>t\<in>set (clock_readings xs). t \<le> now"
      by (simp add: clock_readings_append sorted_append)
    with IH Check_rate_limit show ?thesis
      by (auto simp: run_ops_append clock_readings_append check_rate_limit_window sorted_append
          intro: sorted_wrt_filter)
  qed (insert IH, simp_all add: run_ops_append clock_readings_append window_create_api_key)
qed

section \<open>Properties of the key store and the rate limiter\<close>

subsection \<open>C1: one admission step\<close>

text \<open>
  The specification's wording evicts the timestamps \<open>< t - 60\<close>. The code keeps exactly
  the timestamps \<open>> now - 60\<close>, so a timestamp that is exactly 60 seconds old is evicted
  as well. With the window \<open>[0]\<close>, limit 1 and the clock at 60, \<open>check_rate_limit\<close>
  evicts 0 and admits, where the specification's wording keeps 0 and denies.
\<close>

theorem check_rate_limit_boundary_counterexample:
  "window (run_ops (init_state ''a'' ''b'') [Check_rate_limit ''k'' 1 0]) ''k'' = [0] \<and>
   fst (check_rate_limit ''k'' 1 60 (run_ops (init_state ''a'' ''b'') [Check_rate_limit ''k'' 1 0])) \<and>
   \<not> fst (admit_spec ''k'' 1 60 (run_ops (init_state ''a'' ''b'') [Check_rate_limit ''k'' 1 0]))"
  by (simp add: check_rate_limit_def admit_spec_def window_def init_state_def Let_def)

text \<open>
  C1 (as amended). For every key \<open>k\<close>, limit \<open>L\<close>, clock reading \<open>now\<close> and state,
  \<open>check_rate_limit\<close> first evicts from \<open>k\<close>'s list every timestamp that is at or before
  the cutoff \<open>now - 60\<close> (it keeps those with \<open>now - 60 < x\<close>, in order). When the count
  that remains is \<open>\<ge> L\<close> it returns \<open>False\<close> and stores the remaining list without
  \<open>now\<close>; otherwise it returns \<open>True\<close> and stores the remaining list followed by
  \<open>now\<close>. No other key's list and no key record changes.
\<close>

theorem check_rate_limit_step:
  "fst (check_rate_limit k L now s) =
     (int (length (filter (\<lambda>x. \<not> x \<le> now - 60) (window s k))) < L) \<and>
   (L \<le> int (length (filter (\<lambda>x. \<not> x \<le> now - 60) (window s k))) \<longrightarrow>
      window (snd (check_rate_limit k L now s)) k =
        filter (\<lambda>x. \<not> x \<le> now - 60) (window s k)) \<and>
   (int (length (filter (\<lambda>x. \<not> x \<le> now - 60) (window s k))) < L \<longrightarrow>
      window (snd (check_rate_limit k L now s)) k =
        filter (\<lambda>x. \<not> x \<le> now - 60) (window s k) @ [now]) \<and>
   (\<forall>k'. k' \<noteq> k \<longrightarrow> window (snd (check_rate_limit k L now s)) k' = window s k') \<and>
   API_KEYS (snd (check_rate_limit k L now s)) = API_KEYS s \<and>
   DEMO_KEYS (snd (check_rate_limit k L now s)) = DEMO_KEYS s"
  by (simp add: check_rate_limit_fst check_rate_limit_window check_rate_limit_API_KEYS
      check_rate_limit_DEMO_KEYS not_le)

theorem check_rate_limit_step_witness:
  "window (run_ops (init_state ''a'' ''b'')
       [Check_rate_limit ''k'' 3 0, Check_rate_limit ''k'' 3 5, Check_rate_limit ''k'' 3 30]) ''k''
     = [0, 5, 30] \<and>
   fst (check_rate_limit ''k'' 3 65 (run_ops (init_state ''a'' ''b'')
       [Check_rate_limit ''k'' 3 0, Check_rate_limit ''k'' 3 5, Check_rate_limit ''k'' 3 30])) \<and>
   window (snd (check_rate_limit ''k'' 3 65 (run_ops (init_state ''a'' ''b'')
       [Check_rate_limit ''k'' 3 0, Check_rate_limit ''k'' 3 5, Check_rate_limit ''k'' 3 30]))) ''k''
     = [30, 65] \<and>
   \<not> fst (check_rate_limit ''k'' 1 65 (run_ops (init_state ''a'' ''b'')
       [Check_rate_limit ''k'' 3 0, Check_rate_limit ''k'' 3 5, Check_rate_limit ''k'' 3 30])) \<and>
   window (snd (check_rate_limit ''k'' 1 65 (run_ops (init_state ''a'' ''b'')
       [Check_rate_limit ''k'' 3 0, Check_rate_limit ''k'' 3 5, Check_rate_limit ''k'' 3 30]))) ''k''
     = [30]"
proof -
  let ?s = "run_ops (init_state ''a'' ''b'')
       [Check_rate_limit ''k'' 3 0, Check_rate_limit ''k'' 3 5, Check_rate_limit ''k'' 3 30]"
  have w: "window ?s ''k'' = [0, 5, 30]"
    by (simp add: check_rate_limit_def window_def init_state_def Let_def)
  show ?thesis
    using check_rate_limit_step [of "''k''" 3 65 ?s] check_rate_limit_step [of "''k''" 1 65 ?s]
    unfolding w by simp
qed

subsection \<open>C2: invariants of the stored window\<close>

text \<open>
  C2. After every \<open>check_rate_limit\<close> call on a key \<open>k\<close> at clock reading \<open>now\<close>, from
  any state the operations can reach: every timestamp kept for \<open>k\<close> is fresh
  (\<open>now - x < 60\<close>); when the call was admitted, the number of kept timestamps is at most
  the limit of the call; and when the clock readings of all calls so far, this one
  included, never decrease, the kept list is in non-decreasing order.
\<close>

theorem window_invariants:
  "(\<forall>x\<in>set (window (snd (check_rate_limit k L now (run_ops (init_state c1 c2) xs))) k).
      now - x < 60) \<and>
   (fst (check_rate_limit k L now (run_ops (init_state c1 c2) xs)) \<longrightarrow>
      int (length (window (snd (check_rate_limit k L now (run_ops (init_state c1 c2) xs))) k))
        \<le> L) \<and>
   (sorted (clock_readings (xs @ [Check_rate_limit k L now])) \<longrightarrow>
      sorted (window (snd (check_rate_limit k L now (run_ops (init_state c1 c2) xs))) k))"
proof -
  let ?s = "run_ops (init_state c1 c2) xs"
  have fresh: "\<forall>x\<in>set (window (snd (check_rate_limit k L now ?s)) k). now - x < 60"
    by (auto simp: check_rate_limit_window)
  have count: "fst (check_rate_limit k L now ?s) \<longrightarrow>
      int (length (window (snd (check_rate_limit k L now ?s)) k)) \<le> L"
    by (simp add: check_rate_limit_window check_rate_limit_fst)
  have ordered: "sorted (clock_readings (xs @ [Check_rate_limit k L now])) \<longrightarrow>
      sorted (window (snd (check_rate_limit k L now ?s)) k)"
  proof
    assume "sorted (clock_readings (xs @ [Check_rate_limit k L now]))"
    from window_sorted [OF this, of c1 c2 k] show
      "sorted (window (snd (check_rate_limit k L now ?s)) k)"
      by (simp add: run_ops_append)
  qed
  from fresh count ordered show ?thesis by (intro conjI)
qed

theorem window_invariants_witness:
  "sorted (clock_readings ([Check_rate_limit ''k'' 2 0, Check_rate_limit ''k'' 2 10,
       Check_rate_limit ''k'' 2 20] @ [Check_rate_limit ''k'' 2 65])) \<and>
   fst (check_rate_limit ''k'' 2 65 (run_ops (init_state ''a'' ''b'')
       [Check_rate_limit ''k'' 2 0, Check_rate_limit ''k'' 2 10, Check_rate_limit ''k'' 2 20])) \<and>
   window (snd (check_rate_limit ''k'' 2 65 (run_ops (init_state ''a'' ''b'')
       [Check_rate_limit ''k'' 2 0, Check_rate_limit ''k'' 2 10, Check_rate_limit ''k'' 2 20])))
     ''k'' = [10, 65] \<and>
   sorted (window (snd (check_rate_limit ''k'' 2 65 (run_ops (init_state ''a'' ''b'')
       [Check_rate_limit ''k'' 2 0, Check_rate_limit ''k'' 2 10, Check_rate_limit ''k'' 2 20])))
     ''k'') \<and>
   int (length (window (snd (check_rate_limit ''k'' 2 65 (run_ops (init_state ''a'' ''b'')
       [Check_rate_limit ''k'' 2 0, Check_rate_limit ''k'' 2 10, Check_rate_limit ''k'' 2 20])))
     ''k'')) \<le> 2"
proof -
  let ?xs = "[Check_rate_limit ''k'' 2 0, Check_rate_limit ''k'' 2 10, Check_rate_limit ''k'' 2 20]"
  let ?r = "check_rate_limit ''k'' 2 65 (run_ops (init_state ''a'' ''b'') ?xs)"
  have srt: "sorted (clock_readings (?xs @ [Check_rate_limit ''k'' 2 65]))" by simp
  have ok: "fst ?r"
    by (simp add: check_rate_limit_fst check_rate_limit_window window_init_state)
  have w: "window (snd ?r) ''k'' = [10, 65]"
    by (simp add: check_rate_limit_fst check_rate_limit_window window_init_state)
  from window_invariants [of "''k''" 2 65 "''a''" "''b''" ?xs] srt ok
  have "sorted (window (snd ?r) ''k'')" and "int (length (window (snd ?r) ''k'')) \<le> 2"
    by blast+
  with srt ok w show ?thesis by blast
qed

subsection \<open>C3: no burst in any 60 seconds\<close>

text \<open>
  C3. Let the operations run from the initial state with a clock that never goes back,
  every check of key \<open>k\<close> being made against the same limit \<open>L\<close>. Then, for every \<open>a\<close>,
  at most \<open>L\<close> checks of \<open>k\<close> return \<open>True\<close> at instants in the 60-second span
  \<open>[a, a + 60)\<close>, and likewise in \<open>(a, a + 60]\<close>. (A negative limit grants nothing:
  the bound is \<open>max 0 L\<close>.) The spans are half-open: two instants exactly 60 seconds
  apart, such as 0 and 60 in the example of C1, are not in one span.
\<close>

theorem no_burst_in_any_60_seconds:
  assumes "sorted (clock_readings xs)" and "list_all (limit_is k L) xs"
  shows "int (length (filter (\<lambda>t. a \<le> t \<and> t < a + 60) (granted k (init_state c1 c2) xs)))
           \<le> max 0 L \<and>
         int (length (filter (\<lambda>t. a < t \<and> t \<le> a + 60) (granted k (init_state c1 c2) xs)))
           \<le> max 0 L"
proof
  show "int (length (filter (\<lambda>t. a \<le> t \<and> t < a + 60) (granted k (init_state c1 c2) xs)))
           \<le> max 0 L"
    by (rule granted_bound [OF assms]) simp
  show "int (length (filter (\<lambda>t. a < t \<and> t \<le> a + 60) (granted k (init_state c1 c2) xs)))
           \<le> max 0 L"
    by (rule granted_bound [OF assms]) simp
qed

theorem no_burst_in_any_60_seconds_witness:
  "sorted (clock_readings [Check_rate_limit ''k'' 2 0, Check_rate_limit ''k'' 2 59,
      Check_rate_limit ''k'' 2 (119/2), Check_rate_limit ''k'' 2 60, Check_rate_limit ''k'' 2 61]) \<and>
   list_all (limit_is ''k'' 2) [Check_rate_limit ''k'' 2 0, Check_rate_limit ''k'' 2 59,
      Check_rate_limit ''k'' 2 (119/2), Check_rate_limit ''k'' 2 60, Check_rate_limit ''k'' 2 61] \<and>
   granted ''k'' (init_state ''a'' ''b'') [Check_rate_limit ''k'' 2 0, Check_rate_limit ''k'' 2 59,
      Check_rate_limit ''k'' 2 (119/2), Check_rate_limit ''k'' 2 60, Check_rate_limit ''k'' 2 61]
     = [0, 59, 60] \<and>
   int (length (filter (\<lambda>t. 1 \<le> t \<and> t < 1 + 60)
     (granted ''k'' (init_state ''a'' ''b'') [Check_rate_limit ''k'' 2 0, Check_rate_limit ''k'' 2 59,
      Check_rate_limit ''k'' 2 (119/2), Check_rate_limit ''k'' 2 60, Check_rate_limit ''k'' 2 61])))
     \<le> max 0 2"
proof -
  let ?xs = "[Check_rate_limit ''k'' 2 0, Check_rate_limit ''k'' 2 59,
      Check_rate_limit ''k'' 2 (119/2), Check_rate_limit ''k'' 2 60, Check_rate_limit ''k'' 2 61]"
  have srt: "sorted (clock_readings ?xs)" by simp
  have lim: "list_all (limit_is ''k'' 2) ?xs" by simp
  have g: "granted ''k'' (init_state ''a'' ''b'') ?xs = [0, 59, 60]"
    by (simp add: check_rate_limit_def window_def init_state_def Let_def)
  from no_burst_in_any_60_seconds [OF srt lim, of 1 "''a''" "''b''"] srt lim g
  show ?thesis by blast
qed

subsection \<open>C5: the limit of an issued key\<close>

text \<open>
  The claim gives the tier \<open>demo-pro\<close> the limit 100. \<open>create_api_key\<close> has no entry
  for that tier name and falls back to 10.
\<close>

theorem create_api_key_demo_pro_counterexample:
  "map_of (fst (create_api_key ''x'' ''demo-pro'' ''t'' ''2026-01-01T00:00:00''
      (init_state ''a'' ''b''))) ''rate_limit'' = Some (PInt 10) \<and>
   map_of (fst (create_api_key ''x'' ''demo-pro'' ''t'' ''2026-01-01T00:00:00''
      (init_state ''a'' ''b''))) ''rate_limit'' \<noteq> Some (PInt 100)"
  by (simp add: create_api_key_def key_data_def rate_limits_get_def rate_limits_def Let_def)

text \<open>
  C5 (as amended). For every owner name, \<open>create_api_key\<close> sets \<open>rate_limit\<close>, in the
  record it returns and in the record it stores, to 10 for \<open>free\<close>, 60 for \<open>starter\<close>,
  300 for \<open>pro\<close>, 1000 for \<open>enterprise\<close>, and to 10 for every other tier name
  (\<open>demo-free\<close> and \<open>demo-pro\<close> among them).
\<close>

theorem create_api_key_rate_limit:
  "map_of (fst (create_api_key name tier token utcnow s)) ''rate_limit'' =
     Some (PInt (if tier = ''free'' then 10 else if tier = ''starter'' then 60
                 else if tier = ''pro'' then 300 else if tier = ''enterprise'' then 1000
                 else 10)) \<and>
   API_KEYS (snd (create_api_key name tier token utcnow s)) (generate_api_key token) =
     Some (key_data name tier utcnow) \<and>
   map_of (key_data name tier utcnow) ''rate_limit'' =
     Some (PInt (if tier = ''free'' then 10 else if tier = ''starter'' then 60
                 else if tier = ''pro'' then 300 else if tier = ''enterprise'' then 1000
                 else 10))"
  by (simp add: create_api_key_def key_data_def rate_limits_get_def rate_limits_def Let_def)

subsection \<open>C6: the demo keys\<close>

text \<open>
  C6. In the initial state, with no key issued, \<open>get_key_info\<close> resolves the two demo
  secrets to their records, with \<open>rate_limit\<close> 10 for the free demo key and 100 for the
  pro demo key; after any sequence of operations it resolves them to the same records,
  and \<open>DEMO_KEYS\<close> is unchanged.
\<close>

theorem demo_keys_always_resolve:
  "get_key_info (init_state c1 c2) ''demo-free-key-2026'' =
     Some [(''name'', PStr ''Demo Free User''), (''tier'', PStr ''free''),
           (''rate_limit'', PInt 10), (''created'', PStr c1)] \<and>
   get_key_info (init_state c1 c2) ''demo-pro-key-2026'' =
     Some [(''name'', PStr ''Demo Pro User''), (''tier'', PStr ''pro''),
           (''rate_limit'', PInt 100), (''created'', PStr c2)] \<and>
   get_key_info (run_ops (init_state c1 c2) xs) ''demo-free-key-2026'' =
     get_key_info (init_state c1 c2) ''demo-free-key-2026'' \<and>
   get_key_info (run_ops (init_state c1 c2) xs) ''demo-pro-key-2026'' =
     get_key_info (init_state c1 c2) ''demo-pro-key-2026'' \<and>
   DEMO_KEYS (run_ops (init_state c1 c2) xs) = DEMO_KEYS (init_state c1 c2)"
  by (simp add: get_key_info_def DEMO_KEYS_run_ops init_state_def demo_free_key_def
      demo_pro_key_def demo_free_info_def demo_pro_info_def)

subsection \<open>C7: the mandatory dependency\<close>

text \<open>
  C7. \<open>require_api_key\<close> fails with \<open>MissingKey\<close> when no key is presented; it fails
  with \<open>InvalidKey\<close> when the presented (non-empty) string resolves to no stored key;
  and for the secret returned by an earlier \<open>create_api_key\<close> call, whose token no later
  issuance drew again, it returns the metadata as issued: the returned record of the
  issuance is the field \<open>api_key\<close> followed by exactly that metadata.
\<close>

theorem require_api_key_outcomes:
  "require_api_key s None = Inl MissingKey \<and>
   (k \<noteq> [] \<and> get_key_info s k = None \<longrightarrow> require_api_key s (Some k) = Inl InvalidKey) \<and>
   (token \<notin> set (tokens_of ys) \<longrightarrow>
      fst (create_api_key name tier token utcnow (run_ops (init_state c1 c2) xs)) =
        (''api_key'', PStr (generate_api_key token)) # key_data name tier utcnow \<and>
      require_api_key
        (run_ops (snd (create_api_key name tier token utcnow (run_ops (init_state c1 c2) xs))) ys)
        (Some (generate_api_key token)) = Inr (key_data name tier utcnow))"
proof -
  have a: "require_api_key s None = Inl MissingKey"
    by (simp add: require_api_key_def)
  have b: "k \<noteq> [] \<and> get_key_info s k = None \<longrightarrow> require_api_key s (Some k) = Inl InvalidKey"
    by (simp add: require_api_key_def)
  have c: "fst (create_api_key name tier token utcnow (run_ops (init_state c1 c2) xs)) =
        (''api_key'', PStr (generate_api_key token)) # key_data name tier utcnow"
    by (simp add: create_api_key_def Let_def)
  have d: "token \<notin> set (tokens_of ys) \<longrightarrow> require_api_key
        (run_ops (snd (create_api_key name tier token utcnow (run_ops (init_state c1 c2) xs))) ys)
        (Some (generate_api_key token)) = Inr (key_data name tier utcnow)"
  proof
    assume "token \<notin> set (tokens_of ys)"
    from get_key_info_issued [OF this, of name tier utcnow c1 c2 xs]
    show "require_api_key
        (run_ops (snd (create_api_key name tier token utcnow (run_ops (init_state c1 c2) xs))) ys)
        (Some (generate_api_key token)) = Inr (key_data name tier utcnow)"
      by (simp add: require_api_key_def generate_api_key_nonempty key_data_def)
  qed
  from a b c d show ?thesis by blast
qed

theorem require_api_key_outcomes_witness:
  "require_api_key (init_state ''a'' ''b'') (Some ''garbage'') = Inl InvalidKey \<and>
   ''tok1'' \<notin> set (tokens_of [Create_api_key ''bob'' ''pro'' ''tok2'' ''2026-01-02'',
                                Check_rate_limit ''ngcm_tok1'' 60 0]) \<and>
   require_api_key
     (run_ops (snd (create_api_key ''alice'' ''starter'' ''tok1'' ''2026-01-01''
                      (run_ops (init_state ''a'' ''b'') [])))
        [Create_api_key ''bob'' ''pro'' ''tok2'' ''2026-01-02'',
         Check_rate_limit ''ngcm_tok1'' 60 0])
     (Some ''ngcm_tok1'') =
   Inr [(''name'', PStr ''alice''), (''tier'', PStr ''starter''), (''rate_limit'', PInt 60),
        (''created'', PStr ''2026-01-01''), (''requests_today'', PInt 0),
        (''last_request'', PNone)]"
proof -
  have g: "''garbage'' \<noteq> [] \<and> get_key_info (init_state ''a'' ''b'') ''garbage'' = None"
    by (simp add: get_key_info_def init_state_def demo_free_key_def demo_pro_key_def)
  have t: "''tok1'' \<notin> set (tokens_of [Create_api_key ''bob'' ''pro'' ''tok2'' ''2026-01-02'',
                                Check_rate_limit ''ngcm_tok1'' 60 0])"
    by simp
  from require_api_key_outcomes [of "init_state ''a'' ''b''" "''garbage''" "''tok1''"
      "[Create_api_key ''bob'' ''pro'' ''tok2'' ''2026-01-02'', Check_rate_limit ''ngcm_tok1'' 60 0]"
      "''alice''" "''starter''" "''2026-01-01''" "''a''" "''b''" "[]"] g t
  show ?thesis
    by (simp add: generate_api_key_def key_data_def rate_limits_get_def rate_limits_def)
qed

subsection \<open>C8: the optional dependency\<close>

text \<open>
  C8. \<open>verify_api_key\<close> returns the anonymous result \<open>None\<close>, never an error, when no
  key is presented. When a (non-empty) key is presented, in any state the operations
  can reach, it fails with the invalid-key error if \<open>get_key_info\<close> does not resolve the
  key, and returns the record \<open>get_key_info\<close> resolves it to otherwise.
\<close>

theorem verify_api_key_outcomes:
  "verify_api_key s None = Inr None \<and>
   (k \<noteq> [] \<and> get_key_info (run_ops (init_state c1 c2) xs) k = None \<longrightarrow>
      verify_api_key (run_ops (init_state c1 c2) xs) (Some k) = Inl InvalidKey_optional) \<and>
   (k \<noteq> [] \<and> get_key_info (run_ops (init_state c1 c2) xs) k = Some d \<longrightarrow>
      verify_api_key (run_ops (init_state c1 c2) xs) (Some k) = Inr (Some d))"
proof -
  have a: "verify_api_key s None = Inr None"
    by (simp add: verify_api_key_def)
  have b: "k \<noteq> [] \<and> get_key_info (run_ops (init_state c1 c2) xs) k = None \<longrightarrow>
      verify_api_key (run_ops (init_state c1 c2) xs) (Some k) = Inl InvalidKey_optional"
    by (simp add: verify_api_key_def)
  have c: "k \<noteq> [] \<and> get_key_info (run_ops (init_state c1 c2) xs) k = Some d \<longrightarrow>
      verify_api_key (run_ops (init_state c1 c2) xs) (Some k) = Inr (Some d)"
    using get_key_info_nonempty [of c1 c2 xs k d] by (simp add: verify_api_key_def)
  from a b c show ?thesis by blast
qed

theorem verify_api_key_outcomes_witness:
  "verify_api_key (run_ops (init_state ''a'' ''b'')
       [Create_api_key ''alice'' ''pro'' ''tok1'' ''2026-01-01'']) (Some ''garbage'')
     = Inl InvalidKey_optional \<and>
   verify_api_key (run_ops (init_state ''a'' ''b'')
       [Create_api_key ''alice'' ''pro'' ''tok1'' ''2026-01-01'']) (Some ''ngcm_tok1'')
     = Inr (Some [(''name'', PStr ''alice''), (''tier'', PStr ''pro''),
          (''rate_limit'', PInt 300), (''created'', PStr ''2026-01-01''),
          (''requests_today'', PInt 0), (''last_request'', PNone)])"
proof -
  let ?s = "run_ops (init_state ''a'' ''b'') [Create_api_key ''alice'' ''pro'' ''tok1'' ''2026-01-01'']"
  let ?d = "[(''name'', PStr ''alice''), (''tier'', PStr ''pro''),
          (''rate_limit'', PInt 300), (''created'', PStr ''2026-01-01''),
          (''requests_today'', PInt 0), (''last_request'', PNone)]"
  have g: "''garbage'' \<noteq> [] \<and> get_key_info ?s ''garbage'' = None"
    by (simp add: get_key_info_def init_state_def demo_free_key_def demo_pro_key_def
        create_api_key_def generate_api_key_def Let_def)
  have i: "''ngcm_tok1'' \<noteq> [] \<and> get_key_info ?s ''ngcm_tok1'' = Some ?d"
    by (simp add: get_key_info_def init_state_def demo_free_key_def demo_pro_key_def
        create_api_key_def generate_api_key_def Let_def key_data_def rate_limits_get_def
        rate_limits_def)
  from verify_api_key_outcomes [of "init_state ''a'' ''b''" "''garbage''" "''a''" "''b''"
      "[Create_api_key ''alice'' ''pro'' ''tok1'' ''2026-01-01'']" ?d] g
  have A: "verify_api_key ?s (Some ''garbage'') = Inl InvalidKey_optional"
    by (elim conjE) (erule mp, rule conjI, assumption+)
  from verify_api_key_outcomes [of "init_state ''a'' ''b''" "''ngcm_tok1''" "''a''" "''b''"
      "[Create_api_key ''alice'' ''pro'' ''tok1'' ''2026-01-01'']" ?d] i
  have B: "verify_api_key ?s (Some ''ngcm_tok1'') = Inr (Some ?d)"
    by (elim conjE) (erule mp, rule conjI, assumption+)
  from A B show ?thesis by (rule conjI)
qed

subsection \<open>C9: the stored record does not hold the secret\<close>

text \<open>
  C9. The secret is in the value \<open>create_api_key\<close> returns, under the field \<open>api_key\<close>.
  The record that \<open>get_key_info\<close> resolves an issued secret to (as long as no later
  issuance draws the same token) is \<open>key_data name tier utcnow\<close>, which is computed
  without the secret: it has the six fields \<open>name\<close>, \<open>tier\<close>, \<open>rate_limit\<close>, \<open>created\<close>,
  \<open>requests_today\<close>, \<open>last_request\<close>, no field \<open>api_key\<close>, and no field whose value is
  the secret, unless the caller's own \<open>name\<close> or \<open>tier\<close> or the clock string is that very
  string. The same holds for the two demo records and their four fields.
\<close>

theorem stored_record_omits_secret:
  "(token \<notin> set (tokens_of ys) \<longrightarrow>
      map_of (fst (create_api_key name tier token utcnow (run_ops (init_state c1 c2) xs)))
        ''api_key'' = Some (PStr (generate_api_key token)) \<and>
      get_key_info
        (run_ops (snd (create_api_key name tier token utcnow (run_ops (init_state c1 c2) xs))) ys)
        (generate_api_key token) = Some (key_data name tier utcnow) \<and>
      map (fst) (key_data name tier utcnow) =
        [''name'', ''tier'', ''rate_limit'', ''created'', ''requests_today'', ''last_request''] \<and>
      (name \<noteq> generate_api_key token \<and> tier \<noteq> generate_api_key token \<and>
       utcnow \<noteq> generate_api_key token \<longrightarrow>
         PStr (generate_api_key token) \<notin> snd ` set (key_data name tier utcnow))) \<and>
   get_key_info (run_ops (init_state c1 c2) xs) ''demo-free-key-2026'' =
     Some (demo_free_info c1) \<and>
   map fst (demo_free_info c1) = [''name'', ''tier'', ''rate_limit'', ''created''] \<and>
   (c1 \<noteq> ''demo-free-key-2026'' \<longrightarrow>
      PStr ''demo-free-key-2026'' \<notin> snd ` set (demo_free_info c1)) \<and>
   get_key_info (run_ops (init_state c1 c2) xs) ''demo-pro-key-2026'' =
     Some (demo_pro_info c2) \<and>
   map fst (demo_pro_info c2) = [''name'', ''tier'', ''rate_limit'', ''created''] \<and>
   (c2 \<noteq> ''demo-pro-key-2026'' \<longrightarrow>
      PStr ''demo-pro-key-2026'' \<notin> snd ` set (demo_pro_info c2))"
proof -
  have issued: "token \<notin> set (tokens_of ys) \<longrightarrow>
      get_key_info
        (run_ops (snd (create_api_key name tier token utcnow (run_ops (init_state c1 c2) xs))) ys)
        (generate_api_key token) = Some (key_data name tier utcnow)"
    by (simp add: get_key_info_issued)
  have ret: "map_of (fst (create_api_key name tier token utcnow (run_ops (init_state c1 c2) xs)))
        ''api_key'' = Some (PStr (generate_api_key token))"
    by (simp add: create_api_key_def Let_def)
  have fields: "map (fst) (key_data name tier utcnow) =
        [''name'', ''tier'', ''rate_limit'', ''created'', ''requests_today'', ''last_request'']"
    by (simp add: key_data_def)
  have vals: "name \<noteq> generate_api_key token \<and> tier \<noteq> generate_api_key token \<and>
       utcnow \<noteq> generate_api_key token \<longrightarrow>
         PStr (generate_api_key token) \<notin> snd ` set (key_data name tier utcnow)"
    by (auto simp: key_data_def)
  have demo: "get_key_info (run_ops (init_state c1 c2) xs) ''demo-free-key-2026'' =
       Some (demo_free_info c1)"
     "get_key_info (run_ops (init_state c1 c2) xs) ''demo-pro-key-2026'' =
       Some (demo_pro_info c2)"
    by (simp_all add: get_key_info_def DEMO_KEYS_run_ops init_state_def demo_free_key_def
        demo_pro_key_def)
  have dfields: "map fst (demo_free_info c1) = [''name'', ''tier'', ''rate_limit'', ''created'']"
    "map fst (demo_pro_info c2) = [''name'', ''tier'', ''rate_limit'', ''created'']"
    by (simp_all add: demo_free_info_def demo_pro_info_def)
  have dvals: "c1 \<noteq> ''demo-free-key-2026'' \<longrightarrow>
      PStr ''demo-free-key-2026'' \<notin> snd ` set (demo_free_info c1)"
    "c2 \<noteq> ''demo-pro-key-2026'' \<longrightarrow>
      PStr ''demo-pro-key-2026'' \<notin> snd ` set (demo_pro_info c2)"
    by (auto simp: demo_free_info_def demo_pro_info_def)
  from issued ret fields vals demo dfields dvals show ?thesis
    by (intro conjI impI) (erule (1) mp | assumption)+
qed

theorem stored_record_omits_secret_witness:
  "''tok1'' \<notin> set (tokens_of [Create_api_key ''bob'' ''free'' ''tok2'' ''2026-01-02'']) \<and>
   get_key_info
     (run_ops (snd (create_api_key ''alice'' ''pro'' ''tok1'' ''2026-01-01''
         (run_ops (init_state ''2026-01-01'' ''2026-01-01'') [])))
        [Create_api_key ''bob'' ''free'' ''tok2'' ''2026-01-02''])
     ''ngcm_tok1'' =
     Some [(''name'', PStr ''alice''), (''tier'', PStr ''pro''), (''rate_limit'', PInt 300),
           (''created'', PStr ''2026-01-01''), (''requests_today'', PInt 0),
           (''last_request'', PNone)] \<and>
   PStr ''ngcm_tok1'' \<notin> snd ` set (key_data ''alice'' ''pro'' ''2026-01-01'') \<and>
   PStr ''demo-free-key-2026'' \<notin> snd ` set (demo_free_info ''2026-01-01'') \<and>
   PStr ''demo-pro-key-2026'' \<notin> snd ` set (demo_pro_info ''2026-01-01'')"
  using stored_record_omits_secret [of "''tok1''"
      "[Create_api_key ''bob'' ''free'' ''tok2'' ''2026-01-02'']" "''alice''" "''pro''"
      "''2026-01-01''" "''2026-01-01''" "''2026-01-01''" "[]"]
  by (simp add: generate_api_key_def key_data_def rate_limits_get_def rate_limits_def
      demo_free_info_def demo_pro_info_def)

subsection \<open>C10: the empty string is no key\<close>

text \<open>
  C10. For the presented value \<open>""\<close>, \<open>verify_api_key\<close> returns the anonymous result
  \<open>None\<close>, and \<open>require_api_key\<close> fails with the \<open>MissingKey\<close> error, which is neither
  of the two invalid-key errors.
\<close>

theorem empty_key_is_absent:
  "verify_api_key s (Some []) = Inr None \<and>
   require_api_key s (Some []) = Inl MissingKey \<and>
   MissingKey \<noteq> InvalidKey \<and>
   MissingKey \<noteq> InvalidKey_optional"
  by (simp add: verify_api_key_def require_api_key_def MissingKey_def InvalidKey_def
      InvalidKey_optional_def)

end
